theory Spec2Isabelle
  imports Complex_Main "HOL-Library.Multiset" "HOL-Library.Log_Nat"
begin

section \<open>The debounced, validated text input of TextInput.tsx\<close>

text \<open>
  The component is a React function component.  Its behaviour is embedded as pure
  transition functions on a record \<open>Component\<close> that holds everything the closures of
  the source can reach: the props of the last render, the React state, the ref
  \<open>inputValue\<close>, the browser's pending timeouts with the clock, and the calls the
  component made to its callback props.
\<close>

subsection \<open>JavaScript values\<close>

text \<open>
  A value that is a string or \<open>undefined\<close> (the prop \<open>value\<close>, \<open>state.value\<close>,
  \<open>inputValue.current\<close>).  \<open>None\<close> is \<open>undefined\<close>.
\<close>

type_synonym jsval = "string option"

text \<open>Truthiness as used by \<open>&&\<close>, \<open>||\<close> and \<open>?:\<close>: \<open>undefined\<close> and \<open>""\<close> are falsy.\<close>

definition truthy :: "jsval \<Rightarrow> bool" where
  "truthy v = (case v of None \<Rightarrow> False | Some s \<Rightarrow> s \<noteq> [])"

text \<open>\<open>a || b\<close>\<close>

definition js_or :: "jsval \<Rightarrow> jsval \<Rightarrow> jsval" where
  "js_or a b = (if truthy a then a else b)"

subsection \<open>Data model\<close>

text \<open>The object kept by \<open>React.useState\<close> (lines 48--53).\<close>

record InputState =
  "value" :: jsval
  valid :: bool
  typing :: bool
  focused :: bool

text \<open>
  The props the logic reads (lines 7--23, 26--39).  \<open>initialValue\<close> is the prop
  \<open>value\<close> under the name the component gives it.  \<open>validation\<close> receives whatever the
  component passes, which at line 50 may be \<open>undefined\<close>.  \<open>delay\<close> is a JavaScript
  number of seconds, given by the exact value of the finite double it is; it is compared
  with 0, and its product with 1000 is passed to \<open>setTimeout\<close> (see below).  A delay
  that is \<open>NaN\<close> or infinite is outside this model.  The presentational props take no
  part in the transitions.
\<close>

record Props =
  initialValue :: jsval
  required :: bool
  readOnly :: bool
  validation :: "jsval \<Rightarrow> bool"
  delay :: real

text \<open>A call of one of the callback props, with its arguments.\<close>

datatype callback =
    OnInputStart
  | OnValueChange jsval bool
  | OnFocus jsval bool
  | OnBlur jsval bool

text \<open>
  A pending \<open>setTimeout\<close> of line 110.  The callback \<open>() => updateState(value)\<close> is a
  closure of the render in which \<open>handleInput\<close> ran: it keeps that render's \<open>state\<close> and
  props, and the keystroke's \<open>value\<close>.  \<open>t_due\<close> is the time (in milliseconds) at which
  the timeout elapses: the time of the call plus the whole number of milliseconds that
  \<open>setTimeout\<close> keeps of its argument.
\<close>

record timer =
  t_due :: real
  t_value :: jsval
  t_state :: InputState
  t_props :: Props

record Component =
  props :: Props
  state :: InputState
  inputValue :: jsval
  timers :: "timer list"
  clock :: real
  calls :: "callback list"

subsection \<open>Validation\<close>

text \<open>
  Lines 78--79:
  \<^verbatim>\<open>value && value.length > 0 ? validation(value || initialValue) : !required\<close>
\<close>

definition validate :: "Props \<Rightarrow> jsval \<Rightarrow> bool" where
  "validate p v =
     (case v of
        None \<Rightarrow> \<not> required p
      | Some s \<Rightarrow>
          if s \<noteq> [] \<and> 0 < length s
          then validation p (js_or v (initialValue p))
          else \<not> required p)"

text \<open>
  The rule in the words of the specification:
  \<open>valid = value.length>0 ? validator(value) : !required\<close>, an absent value being empty.
\<close>

definition spec_valid :: "bool \<Rightarrow> (jsval \<Rightarrow> bool) \<Rightarrow> jsval \<Rightarrow> bool" where
  "spec_valid req validator v =
     (case v of
        None \<Rightarrow> \<not> req
      | Some s \<Rightarrow> if 0 < length s then validator v else \<not> req)"

subsection \<open>Numbers and timeouts\<close>

text \<open>
  \<open>delay * 1000\<close> is a product of doubles: the exact product, rounded to the nearest
  double, ties to the even significand (IEEE 754 binary64).  Every finite double is a
  whole multiple of \<open>2 ^ - 1074\<close> with a significand of at most 53 bits, so the rounding
  is done on whole numbers of that unit.

  \<open>roundEven\<close> rounds a real to the nearest integer, a tie to the even one.
  \<open>roundUnits k a\<close> is the double nearest to \<open>a \<ge> 0\<close>, counted in units of
  \<open>2 ^ - k\<close>: of the number of units it keeps the 53 leading bits.
\<close>

definition roundEven :: "real \<Rightarrow> int" where
  "roundEven x =
     (let n = \<lfloor>x\<rfloor>; r = x - of_int n
      in if r < 1 / 2 then n
         else if 1 / 2 < r then n + 1
         else if even n then n else n + 1)"

definition roundUnits :: "nat \<Rightarrow> real \<Rightarrow> int" where
  "roundUnits k a =
     (let N = a * 2 ^ k;
          b = bitlen \<lfloor>N\<rfloor>;
          u = (if b \<le> 53 then 1 else 2 ^ nat (b - 53))
      in roundEven (N / of_int u) * u)"

text \<open>
  The double nearest to a real; \<open>None\<close> when the rounding leaves the range of the
  finite doubles (the result is then \<open>Infinity\<close> or \<open>-Infinity\<close>): the largest finite
  double is \<open>(2 ^ 53 - 1) * 2 ^ 971\<close>, that is \<open>(2 ^ 53 - 1) * 2 ^ 2045\<close> units.
\<close>

definition toDouble :: "real \<Rightarrow> real option" where
  "toDouble x =
     (let m = roundUnits 1074 \<bar>x\<bar>
      in if 2 ^ 2098 \<le> m then None else Some (sgn x * of_int m / 2 ^ 1074))"

text \<open>\<open>a * b\<close> on finite doubles.\<close>

definition js_times :: "real \<Rightarrow> real \<Rightarrow> real option" where
  "js_times a b = toDouble (a * b)"

text \<open>
  \<open>setTimeout(handler, timeout)\<close> takes its timeout as a Web IDL \<open>long\<close>: an infinite
  number becomes 0, a finite one is cut to its integer part and reduced modulo \<open>2 ^ 32\<close>
  into the signed 32-bit range.  A negative timeout is then set to 0.
\<close>

definition toInt32 :: "real option \<Rightarrow> int" where
  "toInt32 y =
     (case y of
        None \<Rightarrow> 0
      | Some r \<Rightarrow>
          (let k = (if r < 0 then - \<lfloor>- r\<rfloor> else \<lfloor>r\<rfloor>) mod 2 ^ 32
           in if 2 ^ 31 \<le> k then k - 2 ^ 32 else k))"

definition setTimeoutMs :: "real option \<Rightarrow> int" where
  "setTimeoutMs y = max 0 (toInt32 y)"

subsection \<open>Event handlers\<close>

text \<open>
  Every handler reads the \<open>state\<close> and the props of the render that created it, and
  \<open>setState\<close> replaces the whole state object.  Several \<open>setState\<close> calls of one event
  are batched and the last object wins, which is what overwriting \<open>state\<close> in sequence
  gives.

  \<open>updateState\<close> (lines 116--125), with the \<open>state\<close> and props of its closure as
  \<open>s\<close> and \<open>p\<close>.
\<close>

definition updateState :: "InputState \<Rightarrow> Props \<Rightarrow> jsval \<Rightarrow> Component \<Rightarrow> Component" where
  "updateState s p v c =
     (if v = inputValue c then
        (let b = (if truthy v then validate p v else \<not> required p)
         in c\<lparr>calls := calls c @ [OnValueChange v b],
               state := s\<lparr>typing := False, value := v, valid := b\<rparr>\<rparr>)
      else c)"

text \<open>\<open>handleInput\<close> (lines 93--113); \<open>x\<close> is \<open>event.target.value\<close>.\<close>

definition handleInput :: "string \<Rightarrow> Component \<Rightarrow> Component" where
  "handleInput x c =
     (let s = state c; p = props c; v = Some x;
          c1 = c\<lparr>inputValue := v\<rparr>;
          c2 = (if \<not> typing s then c1\<lparr>calls := calls c1 @ [OnInputStart]\<rparr> else c1);
          c3 = c2\<lparr>state := s\<lparr>value := v, typing := True\<rparr>\<rparr>
      in if delay p > 0
         then c3\<lparr>timers := timers c3 @
                 [\<lparr>t_due = clock c + of_int (setTimeoutMs (js_times (delay p) 1000)),
                   t_value = v, t_state = s, t_props = p\<rparr>]\<rparr>
         else updateState s p v c3)"

text \<open>The length in milliseconds of the timeout that a keystroke sets under the props \<open>p\<close>.\<close>

definition debounceMs :: "Props \<Rightarrow> real" where
  "debounceMs p = of_int (setTimeoutMs (js_times (delay p) 1000))"

text \<open>\<open>setFocus\<close> (lines 82--90).\<close>

definition setFocus :: "bool \<Rightarrow> Component \<Rightarrow> Component" where
  "setFocus f c =
     (let s = state c;
          c1 = c\<lparr>calls := calls c @
                 [if f then OnFocus (value s) (valid s) else OnBlur (value s) (valid s)]\<rparr>
      in c1\<lparr>state := s\<lparr>focused := f\<rparr>\<rparr>)"

text \<open>\<open>handleClear\<close> (lines 128--132).\<close>

definition handleClear :: "Component \<Rightarrow> Component" where
  "handleClear c =
     (if readOnly (props c) then c
      else c\<lparr>state := (state c)\<lparr>value := None\<rparr>\<rparr>)"

subsection \<open>Mount and effects\<close>

text \<open>The initial state of \<open>useState\<close> (lines 48--53) and the first render.\<close>

definition initialState :: "Props \<Rightarrow> InputState" where
  "initialState p =
     \<lparr>value = initialValue p, valid = validation p (initialValue p),
      typing = False, focused = False\<rparr>"

definition firstRender :: "Props \<Rightarrow> Component" where
  "firstRender p =
     \<lparr>props = p, state = initialState p, inputValue = initialValue p,
      timers = [], clock = 0, calls = []\<rparr>"

text \<open>
  The effect of lines 56--65 (dependency \<open>initialValue\<close>) and the effect of lines 68--73
  (dependencies \<open>validation\<close>, \<open>required\<close>).  \<open>s\<close> is the \<open>state\<close> of the render whose
  effects run; \<open>validate\<close> is that render's, so it uses the props of \<open>c\<close>.
\<close>

definition effectInitialValue :: "InputState \<Rightarrow> Component \<Rightarrow> Component" where
  "effectInitialValue s c =
     c\<lparr>inputValue := initialValue (props c),
       state := s\<lparr>value := initialValue (props c), valid := validate (props c) (value s)\<rparr>\<rparr>"

definition effectRevalidate :: "InputState \<Rightarrow> Component \<Rightarrow> Component" where
  "effectRevalidate s c = c\<lparr>state := s\<lparr>valid := validate (props c) (value s)\<rparr>\<rparr>"

text \<open>After the first render React runs every effect once, in the order of the source.\<close>

definition mount :: "Props \<Rightarrow> Component" where
  "mount p =
     (let c = firstRender p; s = state c
      in effectRevalidate s (effectInitialValue s c))"

text \<open>
  A render with new props.  An effect runs when one of its dependencies is not the same
  value as in the previous render.  For the function \<open>validation\<close> that is object
  identity, which the flag \<open>fresh\<close> stands for: it is true when the parent passed
  another function object.
\<close>

definition receiveProps :: "Props \<Rightarrow> bool \<Rightarrow> Component \<Rightarrow> Component" where
  "receiveProps p' fresh c =
     (let s = state c;
          c0 = c\<lparr>props := p'\<rparr>;
          c1 = (if initialValue p' \<noteq> initialValue (props c)
                then effectInitialValue s c0 else c0)
      in if fresh \<or> required p' \<noteq> required (props c)
         then effectRevalidate s c1 else c1)"

subsection \<open>Timers and timed runs\<close>

text \<open>A timeout elapses: its callback runs \<open>updateState\<close> with the closure it carries.\<close>

definition fire :: "timer \<Rightarrow> Component \<Rightarrow> Component" where
  "fire t c = updateState (t_state t) (t_props t) (t_value t) c"

text \<open>
  The event loop reaches time \<open>now\<close>: the timeouts that have elapsed run in the order
  of their due times (those with equal due times in the order they were set), and leave
  the queue.  A timeout counts as elapsed from its due time on, and runs before an event
  that happens at that same time.  This is the event loop without load: a browser may
  run a callback later than its due time, never earlier.
\<close>

definition advance :: "real \<Rightarrow> Component \<Rightarrow> Component" where
  "advance now c =
     (let due = sort_key t_due (filter (\<lambda>t. t_due t \<le> now) (timers c));
          rest = filter (\<lambda>t. \<not> t_due t \<le> now) (timers c)
      in (foldl (\<lambda>c' t. fire t c') (c\<lparr>timers := rest\<rparr>) due)\<lparr>clock := max now (clock c)\<rparr>)"

text \<open>
  Keystrokes at given times (in milliseconds): the event loop first runs the timeouts
  that have elapsed by then, then the \<open>onChange\<close> handler.
\<close>

fun typeKeys :: "(real \<times> string) list \<Rightarrow> Component \<Rightarrow> Component" where
  "typeKeys [] c = c"
| "typeKeys ((t, x) # ks) c = typeKeys ks (handleInput x (advance t c))"

text \<open>
  The times of a burst of keystrokes: they do not decrease, and each keystroke comes
  less than \<open>D\<close> milliseconds after the one before.
\<close>

fun withinDelay :: "real \<Rightarrow> real list \<Rightarrow> bool" where
  "withinDelay D [] = True"
| "withinDelay D [t] = True"
| "withinDelay D (t # u # ts) = (t \<le> u \<and> u - t < D \<and> withinDelay D (u # ts))"






subsection \<open>Example props\<close>

text \<open>
  The validator \<open>v => v.length >= 3\<close> of the specification's scenario.  On
  \<open>undefined\<close> the JavaScript throws, so no equation is given for that case and
  nothing can be derived about it.  The component passes \<open>undefined\<close> to the validator
  only at line 50 and only when the prop \<open>value\<close> is \<open>undefined\<close>; the example props
  below all have a string there.
\<close>

fun minLength3 :: "jsval \<Rightarrow> bool" where
  "minLength3 (Some s) = (3 \<le> length s)"

definition scenarioProps :: Props where
  "scenarioProps =
     \<lparr>initialValue = Some [], required = True, readOnly = False,
      validation = minLength3, delay = 0.25\<rparr>"

definition optionalProps :: Props where
  "optionalProps = scenarioProps\<lparr>required := False\<rparr>"

definition abcProps :: Props where
  "abcProps = scenarioProps\<lparr>initialValue := Some ''abc''\<rparr>"

definition syncProps :: Props where
  "syncProps = scenarioProps\<lparr>delay := 0\<rparr>"

definition negativeDelayProps :: Props where
  "negativeDelayProps = scenarioProps\<lparr>delay := - 1\<rparr>"

definition bigDelayProps :: Props where
  "bigDelayProps = scenarioProps\<lparr>delay := 2147484\<rparr>"

text \<open>An optional field that shows \<open>a\<close>, and the same field made required.\<close>

definition editProps :: Props where
  "editProps = optionalProps\<lparr>initialValue := Some ''a''\<rparr>"

definition requiredEditProps :: Props where
  "requiredEditProps = editProps\<lparr>required := True\<rparr>"

definition readOnlyProps :: Props where
  "readOnlyProps = abcProps\<lparr>readOnly := True\<rparr>"

text \<open>The timeout set by typing \<open>x\<close> at time 0 into the freshly mounted scenario.\<close>

definition scenarioTimer :: "string \<Rightarrow> timer" where
  "scenarioTimer x =
     \<lparr>t_due = 250, t_value = Some x, t_state = state (mount scenarioProps),
      t_props = scenarioProps\<rparr>"

text \<open>The state obeys the validity rule of the specification under the props \<open>p\<close>.\<close>

definition validByRule :: "Props \<Rightarrow> InputState \<Rightarrow> bool" where
  "validByRule p s = (valid s = spec_valid (required p) (validation p) (value s))"

section \<open>Properties\<close>

lemmas run_defs =
  mount_def firstRender_def initialState_def effectInitialValue_def effectRevalidate_def
  handleInput_def updateState_def advance_def fire_def validate_def truthy_def js_or_def
  handleClear_def setFocus_def receiveProps_def spec_valid_def validByRule_def
  scenarioProps_def optionalProps_def abcProps_def syncProps_def negativeDelayProps_def
  readOnlyProps_def bigDelayProps_def editProps_def requiredEditProps_def
  scenarioTimer_def Let_def

subsection \<open>The validity rule\<close>

lemma validate_spec_valid: "validate p v = spec_valid (required p) (validation p) v"
  by (cases v) (simp_all add: validate_def spec_valid_def js_or_def truthy_def)

text \<open>Line 121 computes the same rule once more around \<open>validate\<close>.\<close>

lemma commit_valid:
  "(if truthy v then validate p v else \<not> required p) =
     spec_valid (required p) (validation p) v"
  by (cases v) (simp_all add: validate_spec_valid truthy_def spec_valid_def)


subsection \<open>Timeout lengths\<close>

lemma roundEven_of_int [simp]: "roundEven (of_int k) = k"
  by (simp add: roundEven_def)

text \<open>A whole number below \<open>2 ^ 53\<close> is a double: rounding leaves it as it is.\<close>

lemma roundUnits_of_int:
  assumes "0 < n" "n < 2 ^ 53" "53 \<le> k"
  shows "roundUnits k (of_int n) = n * 2 ^ k"
proof -
  let ?bl = "bitlen n"
  have bl1: "1 \<le> ?bl"
    using assms(1) bitlen_eq_zero_iff [of n] bitlen_nonneg [of n] by linarith
  have bl53: "?bl \<le> 53"
  proof (rule ccontr)
    assume "\<not> ?bl \<le> 53"
    then have "53 \<le> nat (?bl - 1)" by simp
    then have "(2::int) ^ 53 \<le> 2 ^ nat (?bl - 1)" by (intro power_increasing) simp_all
    with bitlen_bounds [OF assms(1)] assms(2) show False by linarith
  qed
  define e where "e = nat (53 - ?bl)"
  define w where "w = nat (?bl + int k - 53)"
  have sum: "k = e + w" using bl1 bl53 assms(3) by (simp add: e_def w_def)
  have fl: "\<lfloor>real_of_int n * 2 ^ k\<rfloor> = n * 2 ^ k"
    by (metis floor_of_int of_int_mult of_int_numeral of_int_power)
  have b: "bitlen (n * 2 ^ k) = ?bl + int k" using assms(1) by (rule bitlen_pow2)
  have big: "\<not> ?bl + int k \<le> 53" using bl1 assms(3) by simp
  have q: "real_of_int n * 2 ^ k / real_of_int (2 ^ w) = of_int (n * 2 ^ e)"
    by (simp add: sum power_add)
  have "roundUnits k (of_int n) =
          roundEven (real_of_int n * 2 ^ k / real_of_int (2 ^ w)) * 2 ^ w"
    by (simp add: roundUnits_def Let_def fl b big w_def)
  also have "\<dots> = n * 2 ^ e * 2 ^ w" by (simp only: q roundEven_of_int)
  also have "\<dots> = n * 2 ^ k" by (simp add: sum power_add)
  finally show ?thesis .
qed

lemma scaled_below:
  fixes n :: int
  assumes "n < 2 ^ 53" "k + 53 \<le> K"
  shows "n * 2 ^ k < 2 ^ K"
proof -
  have "n * 2 ^ k < 2 ^ 53 * 2 ^ k" using assms(1) by simp
  also have "\<dots> = 2 ^ (k + 53)" by (simp add: power_add)
  also have "\<dots> \<le> 2 ^ K" using assms(2) by (intro power_increasing) simp_all
  finally show ?thesis .
qed

lemma unscale: "real_of_int (n * 2 ^ k) / 2 ^ k = of_int n"
  by simp

lemma toDouble_of_int:
  assumes "0 < n" "n < 2 ^ 53"
  shows "toDouble (of_int n) = Some (of_int n)"
proof -
  have r: "roundUnits 1074 \<bar>real_of_int n\<bar> = n * 2 ^ 1074"
    using roundUnits_of_int [OF assms, of 1074] assms(1) by simp
  have s: "\<not> 2 ^ 2098 \<le> n * (2::int) ^ 1074"
    using scaled_below [OF assms(2), of 1074 2098] by simp
  have "toDouble (of_int n) =
          Some (sgn (real_of_int n) * real_of_int (n * 2 ^ 1074) / 2 ^ 1074)"
    unfolding toDouble_def Let_def r using s by (simp only: if_False)
  also have "\<dots> = Some (of_int n)"
    using assms(1) by (simp only: times_divide_eq_right [symmetric] unscale) simp
  finally show ?thesis .
qed

text \<open>
  When \<open>delay * 1000\<close> is a whole number of milliseconds below \<open>2 ^ 31\<close>, the timeout
  is that number.
\<close>

lemma setTimeoutMs_whole:
  assumes "0 < n" "n < 2 ^ 31" "d * 1000 = of_int n"
  shows "setTimeoutMs (js_times d 1000) = n"
proof -
  have "n < 2 ^ 53" using assms(2) by simp
  then have "js_times d 1000 = Some (of_int n)"
    using toDouble_of_int [of n] assms by (simp add: js_times_def)
  then show ?thesis using assms by (simp add: setTimeoutMs_def toInt32_def)
qed

lemma toInt32_range: "- (2 ^ 31) \<le> toInt32 y \<and> toInt32 y < 2 ^ 31"
proof (cases y)
  case None
  then show ?thesis by (simp add: toInt32_def)
next
  case (Some r)
  define k where "k = (if r < 0 then - \<lfloor>- r\<rfloor> else \<lfloor>r\<rfloor>) mod (2 ^ 32 :: int)"
  have "0 \<le> k" "k < 2 ^ 32" by (simp_all add: k_def)
  moreover have "toInt32 y = (if 2 ^ 31 \<le> k then k - 2 ^ 32 else k)"
    by (simp add: Some toInt32_def Let_def k_def)
  ultimately show ?thesis by (simp split: if_splits)
qed

lemma setTimeoutMs_range: "0 \<le> setTimeoutMs y \<and> setTimeoutMs y < 2 ^ 31"
  using toInt32_range [of y] by (simp add: setTimeoutMs_def)

text \<open>The default delay of 0.25 s gives 250 ms.\<close>

lemma timeout_quarter [simp]: "setTimeoutMs (js_times (1 / 4) 1000) = 250"
  by (rule setTimeoutMs_whole) simp_all

text \<open>
  A delay of 2147484 s gives 2147484000 ms, which is beyond \<open>2 ^ 31 - 1\<close>: as a signed
  32-bit integer it is negative, and the timeout is 0.
\<close>

lemma timeout_overflow [simp]: "setTimeoutMs (js_times 2147484 1000) = 0"
proof -
  have "js_times 2147484 1000 = Some (of_int 2147484000)"
    using toDouble_of_int [of 2147484000] by (simp add: js_times_def)
  then show ?thesis by (simp add: setTimeoutMs_def toInt32_def)
qed

text \<open>Rounding of a positive dyadic number whose numerator has 53 bits or more.\<close>

lemma roundUnits_dyadic:
  assumes "0 < a" "53 \<le> bitlen a" "j \<le> k"
  shows "roundUnits k (of_int a / 2 ^ j) =
           roundEven (of_int a / 2 ^ nat (bitlen a - 53)) *
           2 ^ (nat (bitlen a - 53) + (k - j))"
proof -
  define s where "s = nat (bitlen a - 53)"
  define d where "d = k - j"
  have k: "k = d + j" using assms(3) by (simp add: d_def)
  have N: "real_of_int a / 2 ^ j * 2 ^ k = of_int (a * 2 ^ d)"
    by (simp add: k power_add)
  have b: "bitlen (a * 2 ^ d) = bitlen a + int d" using assms(1) by (rule bitlen_pow2)
  have u: "(if bitlen a + int d \<le> 53 then 1 else 2 ^ nat (bitlen a + int d - 53)) =
             (2::int) ^ (s + d)"
  proof (cases "bitlen a + int d \<le> 53")
    case True
    with assms(2) have "d = 0" "bitlen a = 53" by simp_all
    then show ?thesis by (simp add: s_def)
  next
    case False
    with assms(2) show ?thesis by (simp add: s_def nat_add_distrib)
  qed
  have q: "real_of_int (a * 2 ^ d) / real_of_int (2 ^ (s + d)) = of_int a / 2 ^ s"
    by (simp add: power_add)
  show ?thesis
    unfolding roundUnits_def Let_def N floor_of_int b u q
    by (simp only: s_def d_def)
qed

lemma toDouble_dyadic:
  assumes "0 < a" "53 \<le> bitlen a" "j \<le> 1074"
    and "roundEven (of_int a / 2 ^ nat (bitlen a - 53)) < 2 ^ 53"
    and "nat (bitlen a - 53) + 1127 \<le> 2098 + j"
  shows "toDouble (of_int a / 2 ^ j) =
           Some (of_int (roundEven (of_int a / 2 ^ nat (bitlen a - 53))) *
                 2 ^ nat (bitlen a - 53) / 2 ^ j)"
proof -
  define s where "s = nat (bitlen a - 53)"
  define r where "r = roundEven (of_int a / 2 ^ s)"
  define d where "d = 1074 - j"
  have pos: "\<bar>real_of_int a / 2 ^ j\<bar> = of_int a / 2 ^ j" "sgn (real_of_int a / 2 ^ j) = 1"
    using assms(1) by (simp_all add: sgn_if)
  have m: "roundUnits 1074 (of_int a / 2 ^ j) = r * 2 ^ (s + d)"
    using roundUnits_dyadic [OF assms(1,2,3)] by (simp only: s_def r_def d_def)
  have "r * 2 ^ (s + d) < 2 ^ 2098"
    using assms(3,4,5) by (intro scaled_below) (simp_all add: r_def s_def d_def)
  then have s: "\<not> 2 ^ 2098 \<le> r * 2 ^ (s + d)" by simp
  have split: "(2::real) ^ 1074 = 2 ^ d * 2 ^ j"
    using assms(3) by (simp only: power_add [symmetric] d_def) simp
  have v: "real_of_int (r * 2 ^ (s + d)) / 2 ^ 1074 = of_int r * 2 ^ s / 2 ^ j"
    unfolding split by (simp add: power_add)
  have "toDouble (of_int a / 2 ^ j) = Some (1 * real_of_int (r * 2 ^ (s + d)) / 2 ^ 1074)"
    unfolding toDouble_def Let_def pos m using s by (simp only: if_False)
  also have "\<dots> = Some (of_int r * 2 ^ s / 2 ^ j)"
    by (simp only: mult_1 v)
  finally show ?thesis by (simp only: r_def s_def)
qed

text \<open>
  The double written \<open>1.001\<close> is \<open>2254051613498933 / 2 ^ 51\<close>.  Its product with 1000
  is the double \<open>1000.9999999999999\<close>, and the timeout is 1000 ms, not 1001.
\<close>

lemma timeout_truncates:
  "setTimeoutMs (js_times (2254051613498933 / 2 ^ 51) 1000) = 1000"
proof -
  have bl: "bitlen 281756451687366625 = 58"
    by code_simp
  have x: "(2254051613498933 / 2 ^ 51 :: real) * 1000 = of_int 281756451687366625 / 2 ^ 48"
    by simp
  have r': "roundEven (281756451687366625 / 32) = 8804889115230207"
    by (simp add: roundEven_def Let_def)
  have r: "roundEven (of_int 281756451687366625 /
             2 ^ nat (bitlen 281756451687366625 - 53)) = 8804889115230207"
    by (simp add: bl r')
  have "toDouble (of_int 281756451687366625 / 2 ^ 48) =
          Some (of_int (roundEven (of_int 281756451687366625 /
                  2 ^ nat (bitlen 281756451687366625 - 53))) *
                2 ^ nat (bitlen 281756451687366625 - 53) / 2 ^ 48)"
    by (rule toDouble_dyadic) (simp_all add: bl r')
  then have "js_times (2254051613498933 / 2 ^ 51) 1000 = Some (8804889115230207 / 2 ^ 43)"
    unfolding js_times_def x r by (simp add: bl)
  then show ?thesis by (simp add: setTimeoutMs_def toInt32_def)
qed

lemma debounceMs_scenario: "debounceMs scenarioProps = 250"
  by (simp add: debounceMs_def scenarioProps_def)

subsection \<open>Firing of a timeout\<close>

text \<open>
  What a firing commits: when its value equals the current \<open>inputValue\<close>, the state
  takes the value and stops typing, and the validity, also passed to the value-changed
  callback, is the rule applied with the validator and the required flag that the
  timeout's closure holds.
\<close>

lemma fire_commit:
  "t_value t = inputValue c \<Longrightarrow>
     valid (state (fire t c)) =
       spec_valid (required (t_props t)) (validation (t_props t)) (t_value t)
   \<and> value (state (fire t c)) = t_value t
   \<and> typing (state (fire t c)) = False
   \<and> calls (fire t c) = calls c @
        [OnValueChange (t_value t)
           (spec_valid (required (t_props t)) (validation (t_props t)) (t_value t))]"
  by (simp add: fire_def updateState_def Let_def commit_valid)

text \<open>
  When the props have not changed since the keystroke, these are the component's
  validator and required flag.  Validating the empty string gives \<open>False\<close> when required
  and \<open>True\<close> when not, whatever the validator.
\<close>

lemma fire_commit_current_props:
  "t_value t = inputValue c \<Longrightarrow> t_props t = props c \<Longrightarrow>
     valid (state (fire t c)) =
       spec_valid (required (props c)) (validation (props c)) (t_value t)
   \<and> calls (fire t c) = calls c @
        [OnValueChange (t_value t)
           (spec_valid (required (props c)) (validation (props c)) (t_value t))]"
  using fire_commit [of t c] by simp

lemma validate_empty: "validate p (Some []) = (\<not> required p)"
  by (simp add: validate_def)

text \<open>
  C1: the timeout's closure keeps the validator and the required flag of the render in
  which the key was pressed.  An optional field shows \<open>a\<close>; the user empties it, and
  100 ms later the parent makes the field required, whereupon the effect of lines
  68--73 sets \<open>valid\<close> to \<open>false\<close>.  At 250 ms the timeout fires with the value \<open>""\<close>,
  which equals \<open>inputValue\<close>, and commits it with \<open>valid = true\<close>, by the required flag
  of the earlier render: the callback gets \<open>("", true)\<close> and the state is valid, while
  the rule with the component's required flag gives \<open>false\<close>.
\<close>

theorem C1_stale_props_commit:
  "required (props (receiveProps requiredEditProps False
      (advance 100 (handleInput [] (mount editProps))))) = True
 \<and> valid (state (receiveProps requiredEditProps False
      (advance 100 (handleInput [] (mount editProps))))) = False
 \<and> calls (advance 250 (receiveProps requiredEditProps False
      (advance 100 (handleInput [] (mount editProps))))) =
     [OnInputStart, OnValueChange (Some []) True]
 \<and> state (advance 250 (receiveProps requiredEditProps False
      (advance 100 (handleInput [] (mount editProps))))) =
     \<lparr>value = Some [], valid = True, typing = False, focused = False\<rparr>
 \<and> props (advance 250 (receiveProps requiredEditProps False
      (advance 100 (handleInput [] (mount editProps))))) = requiredEditProps
 \<and> spec_valid (required requiredEditProps) (validation requiredEditProps) (Some []) = False"
  by (simp add: run_defs)

text \<open>
  C3: a firing whose value differs from the current \<open>inputValue\<close> changes nothing: the
  state, the ref and the record of callback calls are what they were.
\<close>

theorem C3_stale_firing_discarded:
  "t_value t \<noteq> inputValue c \<Longrightarrow> fire t c = c"
  by (simp add: fire_def updateState_def)

theorem C3_stale_firing_discarded_witness:
  "t_value (scenarioTimer ''ab'') \<noteq> inputValue (handleInput ''abc'' (mount scenarioProps))
   \<and> fire (scenarioTimer ''ab'') (handleInput ''abc'' (mount scenarioProps)) =
       handleInput ''abc'' (mount scenarioProps)"
  using C3_stale_firing_discarded
    [of "scenarioTimer ''ab''" "handleInput ''abc'' (mount scenarioProps)"]
  by (simp add: run_defs)

subsection \<open>The event loop\<close>

lemma fire_inputValue: "inputValue (fire t c) = inputValue c"
  by (simp add: fire_def updateState_def Let_def)

lemma foldl_fire_stale:
  "\<forall>t \<in> set ts. t_value t \<noteq> inputValue c \<Longrightarrow> foldl (\<lambda>c' t. fire t c') c ts = c"
  by (induction ts) (simp_all add: fire_def updateState_def)

text \<open>Among stale timeouts, one firing is all that happens.\<close>

lemma foldl_fire_one:
  assumes "\<forall>t \<in> set as. t_value t \<noteq> inputValue c"
    and "\<forall>t \<in> set bs. t_value t \<noteq> inputValue c"
  shows "foldl (\<lambda>c' t. fire t c') c (as @ tm # bs) = fire tm c"
proof -
  have "foldl (\<lambda>c' t. fire t c') c (as @ tm # bs) =
          foldl (\<lambda>c' t. fire t c') (fire tm c) bs"
    using assms(1) by (simp add: foldl_fire_stale)
  also have "\<dots> = fire tm c"
    using assms(2) by (intro foldl_fire_stale) (simp add: fire_inputValue)
  finally show ?thesis .
qed

lemma advance_all_stale:
  assumes "\<forall>t \<in> set (timers c). t_due t \<le> now \<longrightarrow> t_value t \<noteq> inputValue c"
  shows "advance now c =
           c\<lparr>timers := filter (\<lambda>t. \<not> t_due t \<le> now) (timers c),
             clock := max now (clock c)\<rparr>"
proof -
  have "foldl (\<lambda>c' t. fire t c')
          (c\<lparr>timers := filter (\<lambda>t. \<not> t_due t \<le> now) (timers c)\<rparr>)
          (sort_key t_due (filter (\<lambda>t. t_due t \<le> now) (timers c)))
        = c\<lparr>timers := filter (\<lambda>t. \<not> t_due t \<le> now) (timers c)\<rparr>"
    using assms by (intro foldl_fire_stale) simp
  then show ?thesis by (simp add: advance_def Let_def)
qed

text \<open>
  The timeout of the latest keystroke elapses while every older pending timeout carries
  another value: the older ones are discarded and the latest commits.
\<close>

lemma advance_last_timer:
  assumes iv: "inputValue c = Some x"
    and tms: "timers c = olds @ [tm]"
    and tv: "t_value tm = Some x"
    and due: "t_due tm \<le> T"
    and olds: "\<forall>t \<in> set olds. t_value t \<noteq> Some x"
  shows "calls (advance T c) = calls c @
           [OnValueChange (Some x)
              (spec_valid (required (t_props tm)) (validation (t_props tm)) (Some x))]
       \<and> state (advance T c) =
           (t_state tm)\<lparr>typing := False, value := Some x,
             valid := spec_valid (required (t_props tm)) (validation (t_props tm)) (Some x)\<rparr>"
proof -
  let ?P = "\<lambda>t. t_due t \<le> T"
  let ?due = "sort_key t_due (filter ?P (timers c))"
  let ?c = "c\<lparr>timers := filter (\<lambda>t. \<not> ?P t) (timers c)\<rparr>"
  have "tm \<in> set ?due" using tms due by simp
  from split_list [OF this] obtain as bs where split: "?due = as @ tm # bs"
    by blast
  have "mset ?due = mset (filter ?P olds) + {#tm#}"
    using tms due by simp
  then have "mset (as @ bs) = mset (filter ?P olds)"
    using split by simp
  then have "set (as @ bs) = set (filter ?P olds)"
    by (rule mset_eq_setD)
  then have sub: "\<forall>t \<in> set as. t_value t \<noteq> inputValue ?c"
    "\<forall>t \<in> set bs. t_value t \<noteq> inputValue ?c"
    using olds iv by auto
  have "foldl (\<lambda>c' t. fire t c') ?c ?due = fire tm ?c"
    unfolding split using sub by (rule foldl_fire_one)
  then have "advance T c = (fire tm ?c)\<lparr>clock := max T (clock c)\<rparr>"
    by (simp add: advance_def Let_def)
  then show ?thesis
    using iv tv
    by (simp add: fire_def updateState_def Let_def validate_spec_valid truthy_def
        spec_valid_def)
qed

subsection \<open>Keystrokes\<close>

lemma advance_single_early:
  "0 < delay (props c) \<Longrightarrow> timers c = [] \<Longrightarrow> now < clock c + debounceMs (props c) \<Longrightarrow>
   calls (advance now (handleInput x c)) = calls (handleInput x c) \<and>
   state (advance now (handleInput x c)) = state (handleInput x c)"
  by (simp add: handleInput_def advance_def debounceMs_def Let_def)

lemma advance_single_due:
  "0 < delay (props c) \<Longrightarrow> timers c = [] \<Longrightarrow> clock c + debounceMs (props c) \<le> now \<Longrightarrow>
   calls (advance now (handleInput x c)) =
     calls c @ (if typing (state c) then [] else [OnInputStart]) @
     [OnValueChange (Some x) (spec_valid (required (props c)) (validation (props c)) (Some x))]"
  by (simp add: handleInput_def advance_def debounceMs_def Let_def fire_def updateState_def
      validate_spec_valid truthy_def spec_valid_def)

text \<open>
  C10, as the claim states it, fails for a delay whose product with 1000 does not fit
  a signed 32-bit integer: with a delay of 2147484 s the validation is not deferred by
  2147484000 ms; the timeout is 0 and the value has been committed by 100 ms.
\<close>

theorem C10_counterexample:
  "0 < delay (props (mount bigDelayProps))
 \<and> 100 < clock (mount bigDelayProps) + delay (props (mount bigDelayProps)) * 1000
 \<and> calls (advance 100 (handleInput ''a'' (mount bigDelayProps))) =
     [OnInputStart, OnValueChange (Some ''a'') False]"
  by (simp add: run_defs)

text \<open>
  C10, amended: the sign of \<open>delay\<close> alone decides the path of \<open>handleInput\<close>.  For every
  \<open>delay \<le> 0\<close> (zero or negative) \<open>updateState\<close> runs in the same event: its value is
  the one just stored in \<open>inputValue\<close>, so it commits at once: the value-changed callback
  is called, the state takes the value and its validity and stops typing, and no
  timeout is set.  For every \<open>delay > 0\<close> the keystroke commits nothing: it records the
  value, marks typing and sets a timeout of \<open>delay * 1000\<close> as \<open>setTimeout\<close> reads that
  product: a whole number of milliseconds from 0 to \<open>2 ^ 31 - 1\<close>, equal to
  \<open>delay * 1000\<close> whenever that is a whole number below \<open>2 ^ 31\<close>.  With nothing else
  pending, nothing is committed before that timeout has elapsed and the commit has
  happened once it has.
\<close>

theorem C10_delay_sign_decides:
  "(delay (props c) \<le> 0 \<longrightarrow>
      handleInput x c =
        c\<lparr>inputValue := Some x,
          calls := calls c @ (if typing (state c) then [] else [OnInputStart]) @
            [OnValueChange (Some x)
               (spec_valid (required (props c)) (validation (props c)) (Some x))],
          state := (state c)\<lparr>typing := False, value := Some x,
            valid := spec_valid (required (props c)) (validation (props c)) (Some x)\<rparr>\<rparr>)
 \<and> (0 < delay (props c) \<longrightarrow>
      handleInput x c =
        c\<lparr>inputValue := Some x,
          calls := calls c @ (if typing (state c) then [] else [OnInputStart]),
          state := (state c)\<lparr>value := Some x, typing := True\<rparr>,
          timers := timers c @
            [\<lparr>t_due = clock c + debounceMs (props c), t_value = Some x,
              t_state = state c, t_props = props c\<rparr>]\<rparr>)
 \<and> debounceMs (props c) = of_int (setTimeoutMs (js_times (delay (props c)) 1000))
 \<and> 0 \<le> debounceMs (props c) \<and> debounceMs (props c) < 2 ^ 31
 \<and> (0 < n \<and> n < 2 ^ 31 \<and> delay (props c) * 1000 = of_int n \<longrightarrow>
      debounceMs (props c) = of_int n)
 \<and> (0 < delay (props c) \<and> timers c = [] \<and> now < clock c + debounceMs (props c) \<longrightarrow>
      calls (advance now (handleInput x c)) = calls (handleInput x c)
    \<and> state (advance now (handleInput x c)) = state (handleInput x c))
 \<and> (0 < delay (props c) \<and> timers c = [] \<and> clock c + debounceMs (props c) \<le> now \<longrightarrow>
      calls (advance now (handleInput x c)) =
        calls c @ (if typing (state c) then [] else [OnInputStart]) @
        [OnValueChange (Some x)
           (spec_valid (required (props c)) (validation (props c)) (Some x))])"
proof (intro conjI impI)
  assume "delay (props c) \<le> 0"
  then show "handleInput x c =
        c\<lparr>inputValue := Some x,
          calls := calls c @ (if typing (state c) then [] else [OnInputStart]) @
            [OnValueChange (Some x)
               (spec_valid (required (props c)) (validation (props c)) (Some x))],
          state := (state c)\<lparr>typing := False, value := Some x,
            valid := spec_valid (required (props c)) (validation (props c)) (Some x)\<rparr>\<rparr>"
    by (simp add: handleInput_def Let_def updateState_def commit_valid)
next
  assume "0 < delay (props c)"
  then show "handleInput x c =
        c\<lparr>inputValue := Some x,
          calls := calls c @ (if typing (state c) then [] else [OnInputStart]),
          state := (state c)\<lparr>value := Some x, typing := True\<rparr>,
          timers := timers c @
            [\<lparr>t_due = clock c + debounceMs (props c), t_value = Some x,
              t_state = state c, t_props = props c\<rparr>]\<rparr>"
    by (simp add: handleInput_def debounceMs_def Let_def)
next
  show "debounceMs (props c) = of_int (setTimeoutMs (js_times (delay (props c)) 1000))"
    by (simp add: debounceMs_def)
next
  show "0 \<le> debounceMs (props c)"
    using setTimeoutMs_range [of "js_times (delay (props c)) 1000"]
    by (simp add: debounceMs_def)
next
  have "real_of_int (setTimeoutMs (js_times (delay (props c)) 1000)) < real_of_int (2 ^ 31)"
    using setTimeoutMs_range [of "js_times (delay (props c)) 1000"]
    by (simp only: of_int_less_iff)
  then show "debounceMs (props c) < 2 ^ 31"
    by (simp add: debounceMs_def)
next
  assume "0 < n \<and> n < 2 ^ 31 \<and> delay (props c) * 1000 = of_int n"
  then show "debounceMs (props c) = of_int n"
    using setTimeoutMs_whole [of n "delay (props c)"] by (simp add: debounceMs_def)
next
  assume "0 < delay (props c) \<and> timers c = [] \<and> now < clock c + debounceMs (props c)"
  then show "calls (advance now (handleInput x c)) = calls (handleInput x c)"
    and "state (advance now (handleInput x c)) = state (handleInput x c)"
    using advance_single_early [of c now x] by simp_all
next
  assume "0 < delay (props c) \<and> timers c = [] \<and> clock c + debounceMs (props c) \<le> now"
  then show "calls (advance now (handleInput x c)) =
        calls c @ (if typing (state c) then [] else [OnInputStart]) @
        [OnValueChange (Some x)
           (spec_valid (required (props c)) (validation (props c)) (Some x))]"
    using advance_single_due [of c now x] by simp
qed

theorem C10_delay_sign_decides_witness:
  "delay (props (mount syncProps)) \<le> 0
 \<and> calls (handleInput ''abc'' (mount syncProps)) =
     [OnInputStart, OnValueChange (Some ''abc'') True]
 \<and> state (handleInput ''abc'' (mount syncProps)) =
     \<lparr>value = Some ''abc'', valid = True, typing = False, focused = False\<rparr>
 \<and> timers (handleInput ''abc'' (mount syncProps)) = []
 \<and> delay (props (mount negativeDelayProps)) \<le> 0
 \<and> calls (handleInput ''ab'' (mount negativeDelayProps)) =
     [OnInputStart, OnValueChange (Some ''ab'') False]
 \<and> timers (handleInput ''ab'' (mount negativeDelayProps)) = []
 \<and> 0 < delay (props (mount scenarioProps))
 \<and> (0::int) < 250 \<and> (250::int) < 2 ^ 31
 \<and> delay (props (mount scenarioProps)) * 1000 = of_int 250
 \<and> debounceMs (props (mount scenarioProps)) = 250
 \<and> timers (mount scenarioProps) = []
 \<and> 249 < clock (mount scenarioProps) + debounceMs (props (mount scenarioProps))
 \<and> clock (mount scenarioProps) + debounceMs (props (mount scenarioProps)) \<le> 250
 \<and> calls (handleInput ''abc'' (mount scenarioProps)) = [OnInputStart]
 \<and> map t_due (timers (handleInput ''abc'' (mount scenarioProps))) = [250]
 \<and> calls (advance 249 (handleInput ''abc'' (mount scenarioProps))) = [OnInputStart]
 \<and> calls (advance 250 (handleInput ''abc'' (mount scenarioProps))) =
     [OnInputStart, OnValueChange (Some ''abc'') True]"
  using C10_delay_sign_decides
      [where c = "mount syncProps" and x = "''abc''" and n = 250 and now = 0]
    C10_delay_sign_decides
      [where c = "mount negativeDelayProps" and x = "''ab''" and n = 250 and now = 0]
    C10_delay_sign_decides
      [where c = "mount scenarioProps" and x = "''abc''" and n = 250 and now = 249]
    C10_delay_sign_decides
      [where c = "mount scenarioProps" and x = "''abc''" and n = 250 and now = 250]
  by (simp add: run_defs debounceMs_def)

subsection \<open>Bursts of keystrokes\<close>

text \<open>
  In the middle of a burst: the component is typing, the timeout \<open>tm\<close> of the latest
  keystroke \<open>x\<close> (typed at \<open>t0\<close>) is pending, and the older pending timeouts \<open>olds\<close>
  carry values that are neither \<open>x\<close> nor typed again later.  Then the rest of the burst
  commits nothing, and after the delay has passed since the last keystroke exactly that
  keystroke's value has been committed.
\<close>

lemma burst_tail:
  assumes "0 < delay (props c)"
    and "inputValue c = Some x"
    and "typing (state c)"
    and "timers c = olds @ [tm]"
    and "t_value tm = Some x"
    and "t_due tm = t0 + debounceMs (props c)"
    and "t_props tm = props c"
    and "\<forall>t \<in> set olds. t_value t \<notin> Some ` set (x # map snd ks)"
    and "clock c = t0"
    and "withinDelay (debounceMs (props c)) (t0 # map fst ks)"
    and "distinct (x # map snd ks)"
    and "fst (last ((t0, x) # ks)) + debounceMs (props c) \<le> T"
  shows "calls (advance T (typeKeys ks c)) = calls c @
           [OnValueChange (Some (snd (last ((t0, x) # ks))))
              (spec_valid (required (props c)) (validation (props c))
                 (Some (snd (last ((t0, x) # ks)))))]
       \<and> value (state (advance T (typeKeys ks c))) = Some (snd (last ((t0, x) # ks)))
       \<and> valid (state (advance T (typeKeys ks c))) =
            spec_valid (required (props c)) (validation (props c))
              (Some (snd (last ((t0, x) # ks))))
       \<and> typing (state (advance T (typeKeys ks c))) = False"
  using assms
proof (induction ks arbitrary: c x t0 olds tm)
  case Nil
  have "t_due tm \<le> T" using Nil by simp
  moreover have "\<forall>t \<in> set olds. t_value t \<noteq> Some x" using Nil by auto
  ultimately show ?case
    using advance_last_timer [of c x olds tm T] Nil by simp
next
  case (Cons k ks)
  obtain t' x' where k: "k = (t', x')" by (cases k)
  let ?D = "debounceMs (props c)"
  have gap: "t0 \<le> t'" "t' < t0 + ?D" and rest: "withinDelay ?D (t' # map fst ks)"
    using Cons.prems(10) k by auto
  have stale: "\<forall>t \<in> set (timers c). t_due t \<le> t' \<longrightarrow> t_value t \<noteq> inputValue c"
    using Cons.prems gap by auto
  let ?olds = "filter (\<lambda>t. \<not> t_due t \<le> t') olds @ [tm]"
  let ?c1 = "advance t' c"
  have c1: "?c1 = c\<lparr>timers := ?olds, clock := t'\<rparr>"
    using advance_all_stale [OF stale] Cons.prems gap by (simp add: max_def)
  let ?tm = "\<lparr>t_due = t' + ?D, t_value = Some x', t_state = state ?c1, t_props = props c\<rparr>"
  let ?c2 = "handleInput x' ?c1"
  have c2: "?c2 = c\<lparr>timers := ?olds @ [?tm], clock := t', inputValue := Some x',
                     state := (state c)\<lparr>value := Some x', typing := True\<rparr>\<rparr>"
    using Cons.prems(1,3) by (simp add: c1 handleInput_def debounceMs_def Let_def)
  have olds': "\<forall>t \<in> set ?olds. t_value t \<notin> Some ` set (x' # map snd ks)"
    using Cons.prems(5,8,11) k by auto
  have "calls (advance T (typeKeys ks ?c2)) = calls ?c2 @
           [OnValueChange (Some (snd (last ((t', x') # ks))))
              (spec_valid (required (props ?c2)) (validation (props ?c2))
                 (Some (snd (last ((t', x') # ks)))))]
       \<and> value (state (advance T (typeKeys ks ?c2))) = Some (snd (last ((t', x') # ks)))
       \<and> valid (state (advance T (typeKeys ks ?c2))) =
            spec_valid (required (props ?c2)) (validation (props ?c2))
              (Some (snd (last ((t', x') # ks))))
       \<and> typing (state (advance T (typeKeys ks ?c2))) = False"
  proof (rule Cons.IH [where olds = ?olds and tm = ?tm])
    show "0 < delay (props ?c2)" using Cons.prems(1) by (simp add: c2)
    show "inputValue ?c2 = Some x'" by (simp add: c2)
    show "typing (state ?c2)" by (simp add: c2)
    show "timers ?c2 = ?olds @ [?tm]" by (simp add: c2)
    show "t_value ?tm = Some x'" by simp
    show "t_due ?tm = t' + debounceMs (props ?c2)" by (simp add: c2)
    show "t_props ?tm = props ?c2" by (simp add: c2)
    show "\<forall>t \<in> set ?olds. t_value t \<notin> Some ` set (x' # map snd ks)" by (rule olds')
    show "clock ?c2 = t'" by (simp add: c2)
    show "withinDelay (debounceMs (props ?c2)) (t' # map fst ks)"
      using rest by (simp add: c2)
    show "distinct (x' # map snd ks)" using Cons.prems(11) k by simp
    show "fst (last ((t', x') # ks)) + debounceMs (props ?c2) \<le> T"
      using Cons.prems(12) k by (simp add: c2)
  qed
  then show ?case using k by (simp add: c2)
qed

text \<open>
  A burst typed into a component with no timeout pending, in which no value is typed
  twice: once the delay has passed since the last keystroke, the only commit is that of
  the last keystroke's value, with its validity.
\<close>

lemma burst_commits_last_only:
  assumes quiet: "timers c = []"
    and pos: "0 < delay (props c)"
    and now: "clock c \<le> t1"
    and gaps: "withinDelay (debounceMs (props c)) (t1 # map fst ks)"
    and dist: "distinct (x1 # map snd ks)"
    and late: "fst (last ((t1, x1) # ks)) + debounceMs (props c) \<le> T"
  shows "calls (advance T (typeKeys ((t1, x1) # ks) c)) =
           calls c @ (if typing (state c) then [] else [OnInputStart]) @
           [OnValueChange (Some (snd (last ((t1, x1) # ks))))
              (spec_valid (required (props c)) (validation (props c))
                 (Some (snd (last ((t1, x1) # ks)))))]
       \<and> value (state (advance T (typeKeys ((t1, x1) # ks) c))) =
           Some (snd (last ((t1, x1) # ks)))
       \<and> valid (state (advance T (typeKeys ((t1, x1) # ks) c))) =
           spec_valid (required (props c)) (validation (props c))
             (Some (snd (last ((t1, x1) # ks))))
       \<and> typing (state (advance T (typeKeys ((t1, x1) # ks) c))) = False"
proof -
  let ?c1 = "advance t1 c"
  have c1: "?c1 = c\<lparr>clock := t1\<rparr>"
    using advance_all_stale [of c t1] quiet now by (simp add: max_def)
  let ?tm = "\<lparr>t_due = t1 + debounceMs (props c), t_value = Some x1,
              t_state = state c, t_props = props c\<rparr>"
  let ?c2 = "handleInput x1 ?c1"
  have c2: "?c2 = c\<lparr>clock := t1, inputValue := Some x1,
               calls := calls c @ (if typing (state c) then [] else [OnInputStart]),
               state := (state c)\<lparr>value := Some x1, typing := True\<rparr>,
               timers := [?tm]\<rparr>"
    using pos quiet by (simp add: c1 handleInput_def debounceMs_def Let_def)
  have "calls (advance T (typeKeys ks ?c2)) = calls ?c2 @
           [OnValueChange (Some (snd (last ((t1, x1) # ks))))
              (spec_valid (required (props ?c2)) (validation (props ?c2))
                 (Some (snd (last ((t1, x1) # ks)))))]
       \<and> value (state (advance T (typeKeys ks ?c2))) = Some (snd (last ((t1, x1) # ks)))
       \<and> valid (state (advance T (typeKeys ks ?c2))) =
            spec_valid (required (props ?c2)) (validation (props ?c2))
              (Some (snd (last ((t1, x1) # ks))))
       \<and> typing (state (advance T (typeKeys ks ?c2))) = False"
  proof (rule burst_tail [where olds = "[]" and tm = ?tm])
    show "0 < delay (props ?c2)" using pos by (simp add: c2)
    show "inputValue ?c2 = Some x1" by (simp add: c2)
    show "typing (state ?c2)" by (simp add: c2)
    show "timers ?c2 = [] @ [?tm]" by (simp add: c2)
    show "t_value ?tm = Some x1" by simp
    show "t_due ?tm = t1 + debounceMs (props ?c2)" by (simp add: c2)
    show "t_props ?tm = props ?c2" by (simp add: c2)
    show "\<forall>t \<in> set []. t_value t \<notin> Some ` set (x1 # map snd ks)" by simp
    show "clock ?c2 = t1" by (simp add: c2)
    show "withinDelay (debounceMs (props ?c2)) (t1 # map fst ks)"
      using gaps by (simp add: c2)
    show "distinct (x1 # map snd ks)" by (rule dist)
    show "fst (last ((t1, x1) # ks)) + debounceMs (props ?c2) \<le> T"
      using late by (simp add: c2)
  qed
  then show ?thesis by (simp add: c2)
qed

text \<open>
  The scenario of the specification: delay 0.25 s, required, validator
  \<open>v => v.length >= 3\<close>; \<open>a\<close>, then within 100 ms \<open>ab\<close>, then within 100 ms \<open>abc\<close>.
  From 250 ms after the last keystroke on, the value-changed callback has been called
  exactly once, with \<open>("abc", true)\<close>.
\<close>

lemma scenario_commits_once:
  assumes "0 \<le> t1" "t1 \<le> t2" "t2 - t1 \<le> 100" "t2 \<le> t3" "t3 - t2 \<le> 100" "t3 + 250 \<le> T"
  shows "calls (advance T
            (typeKeys [(t1, ''a''), (t2, ''ab''), (t3, ''abc'')] (mount scenarioProps))) =
         [OnInputStart, OnValueChange (Some ''abc'') True]"
proof -
  let ?c = "mount scenarioProps"
  have m: "timers ?c = []" "clock ?c = 0" "props ?c = scenarioProps" "calls ?c = []"
    "\<not> typing (state ?c)"
    by (simp_all add: mount_def firstRender_def initialState_def effectInitialValue_def
        effectRevalidate_def Let_def)
  have d: "debounceMs scenarioProps = 250" "required scenarioProps"
    "validation scenarioProps = minLength3"
    by (simp_all add: debounceMs_scenario) (simp_all add: scenarioProps_def)
  have pos: "0 < delay scenarioProps"
    by (simp add: scenarioProps_def)
  have "calls (advance T (typeKeys ((t1, ''a'') # [(t2, ''ab''), (t3, ''abc'')]) ?c)) =
           calls ?c @ (if typing (state ?c) then [] else [OnInputStart]) @
           [OnValueChange (Some (snd (last ((t1, ''a'') # [(t2, ''ab''), (t3, ''abc'')]))))
              (spec_valid (required (props ?c)) (validation (props ?c))
                 (Some (snd (last ((t1, ''a'') # [(t2, ''ab''), (t3, ''abc'')])))))]"
  proof (rule burst_commits_last_only [THEN conjunct1])
    show "timers ?c = []" by (rule m)
    show "0 < delay (props ?c)" by (simp add: m pos)
    show "clock ?c \<le> t1" using assms by (simp add: m)
    show "withinDelay (debounceMs (props ?c)) (t1 # map fst [(t2, ''ab''), (t3, ''abc'')])"
      using assms by (simp add: m d)
    show "distinct (''a'' # map snd [(t2, ''ab''), (t3, ''abc'')])" by simp
    show "fst (last ((t1, ''a'') # [(t2, ''ab''), (t3, ''abc'')])) +
            debounceMs (props ?c) \<le> T"
      using assms by (simp add: m d)
  qed
  then show ?thesis by (simp add: m d spec_valid_def)
qed

text \<open>
  C2: in a burst in which a value comes back, the comparison of line 120 takes the
  timeout of an earlier keystroke for a current one.  Here \<open>a\<close>, \<open>ab\<close>, \<open>a\<close>, \<open>ab\<close>
  are typed 100 ms apart with the scenario's props (delay 250 ms).  The timeout of the
  first keystroke elapses at 250 ms, when \<open>inputValue\<close> is \<open>a\<close> again, and commits \<open>a\<close>
  in the middle of the burst, before the fourth keystroke; the timeout of the second
  commits \<open>ab\<close> at 350 ms and that of the fourth once more at 550 ms: three calls of the
  value-changed callback, one of them for a value that is not the last.
\<close>

theorem C2_repeated_value_commits_early:
  "withinDelay (delay scenarioProps * 1000) [0, 100, 200, 300]
 \<and> calls (advance 299 (typeKeys [(0, ''a''), (100, ''ab''), (200, ''a'')]
      (mount scenarioProps))) =
     [OnInputStart, OnValueChange (Some ''a'') False]
 \<and> calls (advance 1000 (typeKeys [(0, ''a''), (100, ''ab''), (200, ''a''), (300, ''ab'')]
      (mount scenarioProps))) =
     [OnInputStart, OnValueChange (Some ''a'') False, OnInputStart,
      OnValueChange (Some ''ab'') False, OnValueChange (Some ''ab'') False]"
  by (simp add: run_defs)

subsection \<open>Clear and focus\<close>

text \<open>
  C7: \<open>handleClear\<close> leaves a read-only component exactly as it is.  Otherwise it sets
  the state's value to \<open>undefined\<close> (shown as the empty string) and changes nothing
  else: \<open>valid\<close>, \<open>typing\<close> and \<open>focused\<close> keep their values, and so do the ref, the
  pending timeouts, the props and the record of callback calls.
\<close>

theorem C7_clear_frame:
  "(readOnly (props c) \<longrightarrow> handleClear c = c)
 \<and> (\<not> readOnly (props c) \<longrightarrow>
       value (state (handleClear c)) = None
     \<and> \<not> truthy (value (state (handleClear c)))
     \<and> valid (state (handleClear c)) = valid (state c)
     \<and> typing (state (handleClear c)) = typing (state c)
     \<and> focused (state (handleClear c)) = focused (state c)
     \<and> inputValue (handleClear c) = inputValue c
     \<and> timers (handleClear c) = timers c
     \<and> calls (handleClear c) = calls c
     \<and> props (handleClear c) = props c)"
  by (simp add: handleClear_def truthy_def)

theorem C7_clear_frame_witness:
  "readOnly (props (mount readOnlyProps))
 \<and> handleClear (mount readOnlyProps) = mount readOnlyProps
 \<and> \<not> readOnly (props (mount abcProps))
 \<and> state (mount abcProps) =
     \<lparr>value = Some ''abc'', valid = True, typing = False, focused = False\<rparr>
 \<and> state (handleClear (mount abcProps)) =
     \<lparr>value = None, valid = True, typing = False, focused = False\<rparr>"
  using C7_clear_frame [of "mount readOnlyProps"] C7_clear_frame [of "mount abcProps"]
  by (simp add: run_defs)

text \<open>
  C8: \<open>setFocus True\<close> calls the focus callback with the current value and validity and
  sets \<open>focused\<close>; \<open>setFocus False\<close> calls the blur callback with them and resets
  \<open>focused\<close>; nothing else changes.  A focus followed directly by a blur calls the focus
  callback and then the blur callback with the same pair.
\<close>

theorem C8_focus_blur:
  "setFocus True c =
     c\<lparr>calls := calls c @ [OnFocus (value (state c)) (valid (state c))],
       state := (state c)\<lparr>focused := True\<rparr>\<rparr>
 \<and> setFocus False c =
     c\<lparr>calls := calls c @ [OnBlur (value (state c)) (valid (state c))],
       state := (state c)\<lparr>focused := False\<rparr>\<rparr>
 \<and> calls (setFocus False (setFocus True c)) =
     calls c @ [OnFocus (value (state c)) (valid (state c)),
                OnBlur (value (state c)) (valid (state c))]
 \<and> state (setFocus False (setFocus True c)) = (state c)\<lparr>focused := False\<rparr>"
  by (simp add: setFocus_def Let_def)

subsection \<open>Mount and new props\<close>

lemma firstRender_valid:
  "valid (state (firstRender p)) = validation p (initialValue p)"
  by (simp add: firstRender_def initialState_def)

text \<open>
  C9: with initial value \<open>""\<close>, not required, and the validator \<open>v => v.length >= 3\<close>,
  the state made by \<open>useState\<close> (line 50 calls \<open>validation\<close> itself, not \<open>validate\<close>) has
  \<open>valid = false\<close>: this is the state of the first render.  The effects that run after
  that render then set \<open>valid\<close> to \<open>true\<close>.
\<close>

theorem C9_first_render_invalid:
  "initialValue optionalProps = Some []
 \<and> required optionalProps = False
 \<and> valid (initialState optionalProps) = False
 \<and> valid (state (firstRender optionalProps)) = False
 \<and> valid (state (mount optionalProps)) = True"
  by (simp add: run_defs)

text \<open>
  What the effect of lines 56--65 does when only the prop \<open>value\<close> has changed: the
  state takes the new value at once and no timeout is involved, but \<open>valid\<close> is the
  verdict on the value the state had before.
\<close>

lemma receiveProps_initialValue_only:
  assumes "initialValue p' \<noteq> initialValue (props c)"
    and "\<not> fresh" and "required p' = required (props c)"
  shows "state (receiveProps p' fresh c) =
           (state c)\<lparr>value := initialValue p',
             valid := spec_valid (required p') (validation p') (value (state c))\<rparr>
       \<and> inputValue (receiveProps p' fresh c) = initialValue p'
       \<and> timers (receiveProps p' fresh c) = timers c
       \<and> calls (receiveProps p' fresh c) = calls c"
  using assms
  by (simp add: receiveProps_def Let_def effectInitialValue_def validate_spec_valid)

text \<open>
  C5: the component shows \<open>abc\<close>, valid under \<open>v => v.length >= 3\<close>, and the parent
  passes the new value \<open>a\<close>.  The state takes the value \<open>a\<close> but \<open>valid\<close> stays \<open>true\<close>,
  the verdict on \<open>abc\<close> (line 63 validates \<open>state.value\<close>), while the rule gives
  \<open>false\<close> for \<open>a\<close>.  When the parent passes another validator object in the same
  render, the second effect's \<open>setState\<close> wins and the state keeps the value \<open>abc\<close>.
\<close>

theorem C5_new_value_old_validity:
  "state (mount abcProps) =
     \<lparr>value = Some ''abc'', valid = True, typing = False, focused = False\<rparr>
 \<and> state (receiveProps (abcProps\<lparr>initialValue := Some ''a''\<rparr>) False (mount abcProps)) =
     \<lparr>value = Some ''a'', valid = True, typing = False, focused = False\<rparr>
 \<and> spec_valid (required abcProps) (validation abcProps) (Some ''a'') = False
 \<and> state (receiveProps (abcProps\<lparr>initialValue := Some ''a''\<rparr>) True (mount abcProps)) =
     \<lparr>value = Some ''abc'', valid = True, typing = False, focused = False\<rparr>"
  by (simp add: run_defs)

text \<open>
  C6: when the required flag changes or another validator is passed, the same
  transition recomputes \<open>valid\<close> for the value the state holds, by the rule with the new
  flag and the new validator; the value and the other fields of the state are unchanged,
  and neither the pending timeouts nor the clock nor the callbacks are touched.
\<close>

theorem C6_revalidation:
  "fresh \<or> required p' \<noteq> required (props c) \<Longrightarrow>
     state (receiveProps p' fresh c) =
       (state c)\<lparr>valid := spec_valid (required p') (validation p') (value (state c))\<rparr>
   \<and> value (state (receiveProps p' fresh c)) = value (state c)
   \<and> timers (receiveProps p' fresh c) = timers c
   \<and> clock (receiveProps p' fresh c) = clock c
   \<and> calls (receiveProps p' fresh c) = calls c"
  by (auto simp add: receiveProps_def Let_def effectRevalidate_def effectInitialValue_def
      validate_spec_valid)

theorem C6_revalidation_witness:
  "required optionalProps \<noteq> required (props (mount scenarioProps))
 \<and> state (mount scenarioProps) =
     \<lparr>value = Some [], valid = False, typing = False, focused = False\<rparr>
 \<and> state (receiveProps optionalProps False (mount scenarioProps)) =
     \<lparr>value = Some [], valid = True, typing = False, focused = False\<rparr>
 \<and> timers (receiveProps optionalProps False (mount scenarioProps)) = []"
  using C6_revalidation [of False optionalProps "mount scenarioProps"]
  by (simp add: run_defs)

subsection \<open>When the validity rule holds\<close>









end
